theory Spec2Isabelle
  imports Complex_Main
begin

section \<open>NumPy floating-point values\<close>

text \<open>
  Both source files compute on NumPy \<open>float64\<close> arrays. A \<open>float64\<close> is modelled as an
  exact real number or one of the three special values of IEEE 754; rounding, overflow to
  infinity, underflow to zero and the sign of zero are not modelled. NumPy does not raise
  on a floating-point division by zero or on the logarithm of a non-positive number (it
  warns and stores \<open>inf\<close> or \<open>nan\<close>), and the operations below do the same. The theorems
  below are about what does not depend on rounding: which expression the code evaluates,
  which exception it raises, which arrays it writes, and values that \<open>float64\<close> computes
  exactly.
\<close>

datatype npfloat = Fin real | PInf | NInf | NaN

fun np_divide :: "npfloat \<Rightarrow> npfloat \<Rightarrow> npfloat" where
  "np_divide NaN _ = NaN"
| "np_divide _ NaN = NaN"
| "np_divide (Fin a) (Fin b) =
     (if b = 0 then (if a = 0 then NaN else if 0 < a then PInf else NInf) else Fin (a / b))"
| "np_divide (Fin a) _ = Fin 0"
| "np_divide PInf (Fin b) = (if 0 \<le> b then PInf else NInf)"
| "np_divide NInf (Fin b) = (if 0 \<le> b then NInf else PInf)"
| "np_divide _ _ = NaN"

instantiation npfloat :: "{plus, minus, times, inverse}"
begin

fun plus_npfloat :: "npfloat \<Rightarrow> npfloat \<Rightarrow> npfloat" where
  "plus_npfloat NaN _ = NaN"
| "plus_npfloat _ NaN = NaN"
| "plus_npfloat (Fin a) (Fin b) = Fin (a + b)"
| "plus_npfloat PInf NInf = NaN"
| "plus_npfloat NInf PInf = NaN"
| "plus_npfloat PInf _ = PInf"
| "plus_npfloat _ PInf = PInf"
| "plus_npfloat NInf _ = NInf"
| "plus_npfloat _ NInf = NInf"

fun minus_npfloat :: "npfloat \<Rightarrow> npfloat \<Rightarrow> npfloat" where
  "minus_npfloat NaN _ = NaN"
| "minus_npfloat _ NaN = NaN"
| "minus_npfloat (Fin a) (Fin b) = Fin (a - b)"
| "minus_npfloat PInf PInf = NaN"
| "minus_npfloat NInf NInf = NaN"
| "minus_npfloat PInf _ = PInf"
| "minus_npfloat _ NInf = PInf"
| "minus_npfloat NInf _ = NInf"
| "minus_npfloat _ PInf = NInf"

fun times_npfloat :: "npfloat \<Rightarrow> npfloat \<Rightarrow> npfloat" where
  "times_npfloat NaN _ = NaN"
| "times_npfloat _ NaN = NaN"
| "times_npfloat (Fin a) (Fin b) = Fin (a * b)"
| "times_npfloat (Fin a) PInf = (if a = 0 then NaN else if 0 < a then PInf else NInf)"
| "times_npfloat (Fin a) NInf = (if a = 0 then NaN else if 0 < a then NInf else PInf)"
| "times_npfloat PInf (Fin b) = (if b = 0 then NaN else if 0 < b then PInf else NInf)"
| "times_npfloat NInf (Fin b) = (if b = 0 then NaN else if 0 < b then NInf else PInf)"
| "times_npfloat PInf PInf = PInf"
| "times_npfloat NInf NInf = PInf"
| "times_npfloat PInf NInf = NInf"
| "times_npfloat NInf PInf = NInf"

definition divide_npfloat :: "npfloat \<Rightarrow> npfloat \<Rightarrow> npfloat" where
  "divide_npfloat = np_divide"

definition inverse_npfloat :: "npfloat \<Rightarrow> npfloat" where
  "inverse_npfloat x = np_divide (Fin 1) x"

instance ..

end

text \<open>\<open>numpy.log\<close>: minus infinity at zero, \<open>nan\<close> below it.\<close>

fun np_log :: "npfloat \<Rightarrow> npfloat" where
  "np_log (Fin a) = (if 0 < a then Fin (ln a) else if a = 0 then NInf else NaN)"
| "np_log PInf = PInf"
| "np_log NInf = NaN"
| "np_log NaN = NaN"


text \<open>\<open>numpy.sum\<close> of a one-dimensional array; the sum of no elements is \<open>0.0\<close>.\<close>

fun np_sum :: "npfloat list \<Rightarrow> npfloat" where
  "np_sum [] = Fin 0"
| "np_sum (x # xs) = x + np_sum xs"

section \<open>Exceptions\<close>

text \<open>
  The exception classes that the two files can raise themselves, and \<open>OtherError\<close> with a
  class name for whatever else a callee outside them raises.
\<close>

datatype error =
    IndexError
  | NameError string
  | RuntimeError string
  | TypeError
  | ValueError
  | AssertionError
  | ZeroDivisionError
  | OtherError string

section \<open>change\_point.py\<close>

subsection \<open>tau95\<close>

text \<open>
  \<open>numpy.log\<close> of a Python integer. NumPy first turns the integer into an array element:
  a value from \<open>-2\<^sup>6\<^sup>3\<close> up to \<open>2\<^sup>6\<^sup>4 - 1\<close> becomes a 64-bit NumPy integer and then a
  \<open>float64\<close>, and any other value stays a Python object, on which the function raises
  \<open>TypeError\<close>.
\<close>

definition np_log_int :: "int \<Rightarrow> error + npfloat" where
  "np_log_int v =
     (if - (2 ^ 63) \<le> v \<and> v < 2 ^ 64 then Inr (np_log (Fin (of_int v))) else Inl TypeError)"

text \<open>
  \<^verbatim>\<open>def tau95(n)\<close>: the sample size \<open>n\<close> is a Python integer, so \<open>n**2\<close> and \<open>n**3\<close> are
  exact; \<open>log\<close> is \<open>numpy.log\<close>. The calls of \<open>log\<close> are evaluated from left to right and the
  first exception leaves the function.
\<close>

definition tau95 :: "int \<Rightarrow> error + npfloat" where
  "tau95 n =
     (if 1 < n \<and> n \<le> 100 then
        (case np_log_int n of Inl e \<Rightarrow> Inl e | Inr l1 \<Rightarrow>
         case np_log_int (n ^ 2) of Inl e \<Rightarrow> Inl e | Inr l2 \<Rightarrow>
         case np_log_int (n ^ 3) of Inl e \<Rightarrow> Inl e | Inr l3 \<Rightarrow>
           Inr ((Fin 3.0123 + Fin 0.4835 * l1 - Fin 0.00957 * l2 - Fin 0.001488 * l3)
                  / Fin (of_int n)))
      else if 100 < n then
        (case np_log_int n of Inl e \<Rightarrow> Inl e | Inr l1 \<Rightarrow>
         case np_log_int (n ^ 2) of Inl e \<Rightarrow> Inl e | Inr l2 \<Rightarrow>
           Inr ((Fin 3.0806 + Fin 0.4894 * l1 - Fin 0.02086 * l2) / Fin (of_int n)))
      else Inl (RuntimeError ''Implement me''))"

subsection \<open>compute\_likelihood\<close>

text \<open>
  The array expression of the source, operation by operation: \<open>k\<close> is the index array
  \<open>np.indices(times.shape)[0]\<close>, a binary operation on two arrays of one length works
  element by element, and a scalar operand is broadcast. \<open>times[-1]\<close> raises \<open>IndexError\<close>
  on an empty array. For every index \<open>k < N\<close>, so the integer \<open>N - k\<close> is positive. The
  parameter is called \<open>times\<close> in the source.
\<close>

definition compute_likelihood :: "npfloat list \<Rightarrow> error + npfloat list" where
  "compute_likelihood ts =
     (let N = length ts in
      if ts = [] then Inl IndexError
      else
        let T = last ts;
            k = [0..<N];
            Vk = map (\<lambda>t. t / T) ts;
            L = map (\<lambda>x. x - Fin (real (2 * N)) * np_log (Fin (real N)))
                  (map2 (+)
                     (map2 times (map (\<lambda>k. Fin (real (2 * k))) k)
                        (map np_log (map2 (/) (map (\<lambda>k. Fin (real k)) k) Vk)))
                     (map2 times (map (\<lambda>k. Fin (real (2 * (N - k)))) k)
                        (map np_log
                           (map2 (/) (map (\<lambda>k. Fin (real (N - k))) k)
                              (map (\<lambda>v. Fin 1 - v) Vk)))))
        in Inr L)"

text \<open>
  The profile as the specification writes it, index by index:
  \<open>L[k] = 2k log(k/Vk[k]) + 2(N-k) log((N-k)/(1-Vk[k])) - 2N log(N)\<close> with
  \<open>Vk[k] = times[k]/T\<close> and \<open>T = times[N-1]\<close>.
\<close>

definition L_spec :: "npfloat list \<Rightarrow> nat \<Rightarrow> npfloat" where
  "L_spec ts k =
     (let N = length ts;
          T = ts ! (N - 1);
          V = ts ! k / T
      in Fin (2 * real k) * np_log (Fin (real k) / V)
           + Fin (2 * real (N - k)) * np_log (Fin (real (N - k)) / (Fin 1 - V))
           - Fin (2 * real N) * np_log (Fin (real N)))"

subsection \<open>find\_change\_points\<close>

text \<open>\<open>range(0, n, step)\<close> for a positive step.\<close>

definition py_range_step :: "nat \<Rightarrow> nat \<Rightarrow> nat list" where
  "py_range_step n step = map (\<lambda>j. j * step) [0..<(n + step - 1) div step]"

text \<open>
  The body of the loop for one chunk \<open>t\<close>. The module imports \<open>numpy\<close> as \<open>np\<close> and the
  single name \<open>log\<close> from it, and defines \<open>tau95\<close>, \<open>compute_likelihood\<close>, \<open>find_tau\<close>,
  \<open>find_change_points\<close> and two test-data generators. After \<open>L = compute_likelihood(t)\<close>
  the statement \<open>k_max = argmax(L)\<close> looks up \<open>argmax\<close>, which is neither a global of the
  module nor a builtin, and raises \<open>NameError\<close>. The statements after it (which also name
  the undefined \<open>compute_tau\<close> and \<open>beta\<close>) are never reached, so the body always ends in an
  exception; the model returns that exception.
\<close>

definition chunk_body :: "npfloat list \<Rightarrow> error" where
  "chunk_body t = (case compute_likelihood t of Inl e \<Rightarrow> e | Inr L \<Rightarrow> NameError ''argmax'')"

text \<open>
  The loop runs the body on the first chunk, if there is one, and the exception leaves the
  function. With no chunk the loop is skipped and the function ends without a \<open>return\<close>
  statement: its value is \<open>None\<close>, the unit value here. \<open>alpha\<close> is never used.
\<close>

definition find_change_points :: "npfloat list \<Rightarrow> real \<Rightarrow> error + unit" where
  "find_change_points ts alpha =
     (let chunk_sz = 1000 in
      case py_range_step (length ts) chunk_sz of
        [] \<Rightarrow> Inr ()
      | i # _ \<Rightarrow> Inl (chunk_body (take chunk_sz (drop i ts))))"

section \<open>photon\_tools/fcs\_mem.py\<close>

subsection \<open>Arrays and the store\<close>

text \<open>
  \<open>mem\<close> receives references to arrays that its caller still holds, copies one of them and
  assigns into arrays by index, so arrays live in a store: a map from addresses to arrays
  with an allocation pointer. An array is one-dimensional, or two-dimensional with its
  number of columns and its rows. Values of expressions that are only read (slices,
  sums, the matrices handed to the solver) are plain values.
\<close>

type_synonym addr = nat

datatype ndarray = Vec "npfloat list" | Mat nat "npfloat list list"

fun shape :: "ndarray \<Rightarrow> nat list" where
  "shape (Vec xs) = [length xs]"
| "shape (Mat c rows) = [length rows, c]"

text \<open>
  The elements of an array that the code has checked to be one-dimensional, and the row
  \<open>a[n,:]\<close> of one it has checked to be two-dimensional. The second equation of each is
  never reached from \<open>mem\<close>.
\<close>

fun vec_of :: "ndarray \<Rightarrow> npfloat list" where
  "vec_of (Vec xs) = xs"
| "vec_of (Mat c rows) = concat rows"

fun row_of :: "ndarray \<Rightarrow> nat \<Rightarrow> npfloat list" where
  "row_of (Mat c rows) n = rows ! n"
| "row_of (Vec xs) n = []"

fun rows_of :: "ndarray \<Rightarrow> npfloat list list" where
  "rows_of (Mat c rows) = rows"
| "rows_of (Vec xs) = [xs]"

record store =
  cells :: "addr \<Rightarrow> ndarray"
  nxt :: addr

text \<open>A new array object: it gets the next free address.\<close>

definition alloc :: "ndarray \<Rightarrow> store \<Rightarrow> addr \<times> store" where
  "alloc a s = (nxt s, s\<lparr>cells := (cells s)(nxt s := a), nxt := Suc (nxt s)\<rparr>)"

text \<open>
  The assignments \<open>a[n] = v\<close> and \<open>a[m,n] = v\<close>. \<open>mem\<close> only assigns at indices produced by
  \<open>range(Nmodels)\<close> into arrays of that size, so the indices are in range.
\<close>

definition store_vec :: "store \<Rightarrow> addr \<Rightarrow> nat \<Rightarrow> npfloat \<Rightarrow> store" where
  "store_vec s a n v = s\<lparr>cells := (cells s)(a := Vec ((vec_of (cells s a))[n := v]))\<rparr>"

definition store_mat :: "store \<Rightarrow> addr \<Rightarrow> nat \<Rightarrow> nat \<Rightarrow> npfloat \<Rightarrow> store" where
  "store_mat s a m n v =
     s\<lparr>cells := (cells s)(a :=
          (case cells s a of
             Mat c rows \<Rightarrow> Mat c (rows[m := (rows ! m)[n := v]])
           | Vec xs \<Rightarrow> Vec xs))\<rparr>"

text \<open>
  \<open>np.empty\<close> returns an array of the requested shape whose contents are whatever the
  memory held: the function \<open>garbage\<close>.
\<close>

definition np_empty1 :: "(nat \<Rightarrow> npfloat) \<Rightarrow> nat \<Rightarrow> ndarray" where
  "np_empty1 garbage n = Vec (map garbage [0..<n])"

definition np_empty2 :: "(nat \<Rightarrow> npfloat) \<Rightarrow> nat \<Rightarrow> nat \<Rightarrow> ndarray" where
  "np_empty2 garbage r c = Mat c (map (\<lambda>i. map (\<lambda>j. garbage (i * c + j)) [0..<c]) [0..<r])"

fun np_negative :: "npfloat \<Rightarrow> npfloat" where
  "np_negative (Fin a) = Fin (- a)"
| "np_negative PInf = NInf"
| "np_negative NInf = PInf"
| "np_negative NaN = NaN"

definition np_diag :: "npfloat list \<Rightarrow> npfloat list list" where
  "np_diag v = map (\<lambda>i. map (\<lambda>j. if i = j then v ! i else Fin 0) [0..<length v]) [0..<length v]"

definition np_eye :: "nat \<Rightarrow> npfloat list list" where
  "np_eye n = map (\<lambda>i. map (\<lambda>j. if i = j then Fin 1 else Fin 0) [0..<n]) [0..<n]"

text \<open>\<open>np.linspace(start, stop, num)\<close> with the end point included.\<close>

definition linspace :: "real \<Rightarrow> real \<Rightarrow> nat \<Rightarrow> real list" where
  "linspace start stop num =
     map (\<lambda>j. start + real j * ((stop - start) / real (num - 1))) [0..<num]"

subsection \<open>Setting up H and g0\<close>

text \<open>
  The right-hand sides of the two assignments in the set-up loops, as array expressions:
  \<open>np.sum(models[n,:] * y / sigma**2)\<close> and \<open>np.sum(models[m,:] * models[n,:] / sigma**2)\<close>,
  each multiplied by \<open>2 / Npts\<close>. The file imports true division, and \<open>2 / Npts\<close> divides
  two Python integers: it raises \<open>ZeroDivisionError\<close> when \<open>Npts\<close> is zero.
\<close>

definition g0_val :: "ndarray \<Rightarrow> ndarray \<Rightarrow> ndarray \<Rightarrow> nat \<Rightarrow> nat \<Rightarrow> npfloat" where
  "g0_val yv M sg Npts n =
     Fin (2 / real Npts)
       * np_sum (map2 (/) (map2 times (row_of M n) (vec_of yv)) (map (\<lambda>x. x * x) (vec_of sg)))"

definition H_val :: "ndarray \<Rightarrow> ndarray \<Rightarrow> nat \<Rightarrow> nat \<Rightarrow> nat \<Rightarrow> npfloat" where
  "H_val M sg Npts m n =
     Fin (2 / real Npts)
       * np_sum (map2 (/) (map2 times (row_of M m) (row_of M n)) (map (\<lambda>x. x * x) (vec_of sg)))"

text \<open>The inner loop \<open>for m in range(Nmodels): H[m,n] = ...\<close> for one \<open>n\<close>.\<close>

fun fill_column ::
  "addr \<Rightarrow> addr \<Rightarrow> addr \<Rightarrow> nat \<Rightarrow> nat \<Rightarrow> nat list \<Rightarrow> store \<Rightarrow> (error \<times> store) + store"
where
  "fill_column models sigma H Npts n [] s = Inr s"
| "fill_column models sigma H Npts n (m # ms) s =
     (if Npts = 0 then Inl (ZeroDivisionError, s)
      else fill_column models sigma H Npts n ms
             (store_mat s H m n (H_val (cells s models) (cells s sigma) Npts m n)))"

text \<open>The outer loop \<open>for n in range(Nmodels): g0[n] = ...; for m ...\<close>.\<close>

fun fill ::
  "addr \<Rightarrow> addr \<Rightarrow> addr \<Rightarrow> addr \<Rightarrow> addr \<Rightarrow> nat \<Rightarrow> nat \<Rightarrow> nat list \<Rightarrow> store
     \<Rightarrow> (error \<times> store) + store"
where
  "fill y models sigma H g0 Nmodels Npts [] s = Inr s"
| "fill y models sigma H g0 Nmodels Npts (n # ns) s =
     (if Npts = 0 then Inl (ZeroDivisionError, s)
      else
        case fill_column models sigma H Npts n [0..<Nmodels]
               (store_vec s g0 n (g0_val (cells s y) (cells s models) (cells s sigma) Npts n)) of
          Inl es \<Rightarrow> Inl es
        | Inr s' \<Rightarrow> fill y models sigma H g0 Nmodels Npts ns s')"

text \<open>
  The local variables of \<open>mem\<close> that the iteration uses, with the store. \<open>expected\<close> is the
  scalar \<open>1\<close> when the argument was \<open>None\<close>.
\<close>

record frame =
  heap :: store
  p_ref :: addr
  H_ref :: addr
  g0_ref :: addr
  expected_ref :: "addr option"
  Nmodels_of :: nat

text \<open>
  The statements of \<open>mem\<close> before the loop. An exception is returned with the store at the
  time it is raised. Unpacking \<open>models.shape\<close> into two names raises \<open>ValueError\<close> unless
  \<open>models\<close> is two-dimensional; each \<open>assert\<close> raises \<open>AssertionError\<close> (assertions are
  enabled, as they are unless Python runs with \<open>-O\<close>).
\<close>

definition mem_setup ::
  "(nat \<Rightarrow> npfloat) \<Rightarrow> store \<Rightarrow> addr \<Rightarrow> addr \<Rightarrow> addr \<Rightarrow> addr option \<Rightarrow> addr option
     \<Rightarrow> (error \<times> store) + frame"
where
  "mem_setup garbage s y models sigma p0 expected =
     (case shape (cells s models) of
        [Nmodels, Npts] \<Rightarrow>
          if shape (cells s y) \<noteq> [Npts] then Inl (AssertionError, s)
          else if shape (cells s sigma) \<noteq> [Npts] then Inl (AssertionError, s)
          else if (case expected of None \<Rightarrow> False | Some e \<Rightarrow> shape (cells s e) \<noteq> [Nmodels])
            then Inl (AssertionError, s)
          else
            let (p0', s1) =
                  (case p0 of
                     None \<Rightarrow> alloc (Vec (replicate Nmodels (Fin 1))) s
                   | Some a \<Rightarrow> (a, s))
            in
            if shape (cells s1 p0') \<noteq> [Nmodels] then Inl (AssertionError, s1)
            else
              let (p, s2) = alloc (cells s1 p0') s1;
                  (H, s3) = alloc (np_empty2 garbage Nmodels Nmodels) s2;
                  (g0, s4) = alloc (np_empty1 garbage Nmodels) s3
              in
              (case fill y models sigma H g0 Nmodels Npts [0..<Nmodels] s4 of
                 Inl es \<Rightarrow> Inl es
               | Inr s5 \<Rightarrow>
                   Inr \<lparr>heap = s5, p_ref = p, H_ref = H, g0_ref = g0,
                        expected_ref = expected, Nmodels_of = Nmodels\<rparr>)
      | _ \<Rightarrow> Inl (ValueError, s))"

subsection \<open>The iteration\<close>

text \<open>
  The quadratic-program solver \<open>shrager\<close> is imported from a module that is not part of
  the sources at hand. It is a parameter: a function of the values \<open>Q\<close>, \<open>g\<close>, \<open>C\<close>, \<open>d\<close> and
  \<open>x0\<close> that raises or returns a new weight vector (the second component of its result is
  discarded by \<open>mem\<close>). It is taken not to assign into the arrays it is given, all of
  which \<open>mem\<close> has created itself, and to return a new array. By its contract the vector has
  the length of \<open>x0\<close>; what NumPy does in the next pass with a vector of another length
  is not modelled.
\<close>

type_synonym solver =
  "npfloat list list \<Rightarrow> npfloat list \<Rightarrow> npfloat list list \<Rightarrow> npfloat list \<Rightarrow> npfloat list
     \<Rightarrow> error + npfloat list"

text \<open>
  The block under \<open>if True:\<close> plots \<open>q\<close> along each coordinate. What it leaves behind is its
  assignments \<open>p[i] = x\<close>, for every \<open>i\<close> and every \<open>x\<close> of \<open>np.linspace(1e-5, 2)\<close> (50 points),
  into the array that \<open>p\<close> refers to. The values of \<open>q\<close> go to the plotting library, which
  is not modelled.
\<close>

definition plot_sweep :: "store \<Rightarrow> addr \<Rightarrow> nat \<Rightarrow> store" where
  "plot_sweep s p Nmodels =
     foldl (\<lambda>s i. foldl (\<lambda>s x. store_vec s p i (Fin x)) s (linspace (1 / 100000) 2 50))
       s [0..<Nmodels]"

text \<open>
  One pass through the body of \<open>while True\<close>, up to and including \<open>p = pNew\<close>: \<open>delta\<close> from
  the current \<open>p\<close>, the plotting block, the call of the solver on \<open>H + nu * delta\<close>, \<open>g0\<close>,
  \<open>-np.eye(Nmodels)\<close>, \<open>np.zeros(Nmodels)\<close> and \<open>p\<close>, and the new array bound to \<open>p\<close>.
\<close>

definition mem_body :: "solver \<Rightarrow> real \<Rightarrow> frame \<Rightarrow> (error \<times> store) + frame" where
  "mem_body shrager nu f =
     (let s = heap f;
          Nmodels = Nmodels_of f;
          p = vec_of (cells s (p_ref f));
          ratio = (case expected_ref f of
                     None \<Rightarrow> map (\<lambda>x. x / Fin 1) p
                   | Some e \<Rightarrow> map2 (/) p (vec_of (cells s e)));
          delta = np_diag (map2 (/) (map np_log ratio) p);
          s' = plot_sweep s (p_ref f) Nmodels;
          Q = map2 (map2 (+)) (rows_of (cells s' (H_ref f)))
                (map (map (\<lambda>x. Fin nu * x)) delta)
      in
      case shrager Q (vec_of (cells s' (g0_ref f))) (map (map np_negative) (np_eye Nmodels))
             (replicate Nmodels (Fin 0)) (vec_of (cells s' (p_ref f))) of
        Inl e \<Rightarrow> Inl (e, s')
      | Inr pNew \<Rightarrow>
          let (a, s'') = alloc (Vec pNew) s'
          in Inr (f\<lparr>heap := s'', p_ref := a\<rparr>))"

text \<open>
  The loop. After the body the source sets \<open>converged = False\<close> and breaks if \<open>converged\<close>;
  the value returned after a break is the array \<open>p\<close>. A loop that does not stop has the
  value \<open>None\<close>.
\<close>

partial_function (option) mem_loop ::
  "solver \<Rightarrow> real \<Rightarrow> frame \<Rightarrow> ((error \<times> store) + (addr \<times> store)) option"
where
  "mem_loop shrager nu f =
     (case mem_body shrager nu f of
        Inl es \<Rightarrow> Some (Inl es)
      | Inr f' \<Rightarrow>
          (let converged = False
           in if converged then Some (Inr (p_ref f', heap f'))
              else mem_loop shrager nu f'))"

definition mem ::
  "solver \<Rightarrow> (nat \<Rightarrow> npfloat) \<Rightarrow> store \<Rightarrow> addr \<Rightarrow> addr \<Rightarrow> addr \<Rightarrow> addr option \<Rightarrow> addr option
     \<Rightarrow> real \<Rightarrow> real \<Rightarrow> ((error \<times> store) + (addr \<times> store)) option"
where
  "mem shrager garbage s y models sigma p0 expected nu delta_thresh =
     (case mem_setup garbage s y models sigma p0 expected of
        Inl es \<Rightarrow> Some (Inl es)
      | Inr f \<Rightarrow> mem_loop shrager nu f)"

text \<open>The first \<open>n\<close> passes through the loop body, to speak about the states in between.\<close>

fun mem_steps :: "solver \<Rightarrow> real \<Rightarrow> nat \<Rightarrow> frame \<Rightarrow> (error \<times> store) + frame" where
  "mem_steps shrager nu 0 f = Inr f"
| "mem_steps shrager nu (Suc n) f =
     (case mem_body shrager nu f of
        Inl es \<Rightarrow> Inl es
      | Inr f' \<Rightarrow> mem_steps shrager nu n f')"

text \<open>
  The scenario of the specification: \<open>y = [1,1,1]\<close> at address 0,
  \<open>models = [[1,1,1],[0,0,1]]\<close> at 1, \<open>sigma = [1,1,1]\<close> at 2, \<open>expected = [1,1]\<close> at 3 and
  \<open>p0 = [1,1]\<close> at 4.
\<close>

definition scenario :: store where
  "scenario =
     \<lparr>cells = (\<lambda>_. Vec [])
        (0 := Vec [Fin 1, Fin 1, Fin 1],
         1 := Mat 3 [[Fin 1, Fin 1, Fin 1], [Fin 0, Fin 0, Fin 1]],
         2 := Vec [Fin 1, Fin 1, Fin 1],
         3 := Vec [Fin 1, Fin 1],
         4 := Vec [Fin 1, Fin 1]),
      nxt = 5\<rparr>"

text \<open>
  The fit matrices as the specification writes them:
  \<open>H[m,n] = (2/Npts) \<Sum>i models[m,i] models[n,i] / sigma[i]\<^sup>2\<close> and
  \<open>g0[n] = (2/Npts) \<Sum>i models[n,i] y[i] / sigma[i]\<^sup>2\<close>.
\<close>

definition H_spec :: "npfloat list list \<Rightarrow> npfloat list \<Rightarrow> nat \<Rightarrow> nat \<Rightarrow> nat \<Rightarrow> npfloat" where
  "H_spec M sg Npts m n =
     Fin (2 / real Npts)
       * np_sum (map (\<lambda>i. M ! m ! i * M ! n ! i / (sg ! i * sg ! i)) [0..<Npts])"

definition g0_spec ::
  "npfloat list list \<Rightarrow> npfloat list \<Rightarrow> npfloat list \<Rightarrow> nat \<Rightarrow> nat \<Rightarrow> npfloat" where
  "g0_spec M yv sg Npts n =
     Fin (2 / real Npts)
       * np_sum (map (\<lambda>i. M ! n ! i * yv ! i / (sg ! i * sg ! i)) [0..<Npts])"

section \<open>Properties of change\_point.py\<close>

lemma divide_npfloat_eq [simp]: "x / y = np_divide x y"
  by (simp add: divide_npfloat_def)

lemma np_log_pos: "0 < a \<Longrightarrow> np_log (Fin a) = Fin (ln a)"
  by simp

subsection \<open>The critical value\<close>

lemma ln_of_int_power: "1 < n \<Longrightarrow> ln (real_of_int n ^ m) = real m * ln (real_of_int n)"
  by (simp add: ln_realpow)

lemma square_below_2_64:
  assumes "0 \<le> n" and "n < 2 ^ 32"
  shows "n ^ 2 < (2 :: int) ^ 64"
proof -
  have "n ^ 2 < (2 ^ 32) ^ 2" using assms by (intro power_strict_mono) simp_all
  then show ?thesis by simp
qed

lemma square_from_2_64:
  assumes "2 ^ 32 \<le> n"
  shows "(2 :: int) ^ 64 \<le> n ^ 2"
proof -
  have "((2 :: int) ^ 32) ^ 2 \<le> n ^ 2" using assms by (intro power_mono) simp_all
  then show ?thesis by simp
qed

lemma cube_small:
  assumes "0 \<le> n" and "n \<le> 100"
  shows "n ^ 2 \<le> (10000 :: int)" and "n ^ 3 \<le> (1000000 :: int)"
proof -
  have "n ^ 2 \<le> 100 ^ 2" using assms by (intro power_mono) simp_all
  then show "n ^ 2 \<le> 10000" by simp
  have "n ^ 3 \<le> 100 ^ 3" using assms by (intro power_mono) simp_all
  then show "n ^ 3 \<le> 1000000" by simp
qed

lemma np_log_int_pos:
  assumes "1 < v" and "v < 2 ^ 64"
  shows "np_log_int v = Inr (Fin (ln (real_of_int v)))"
  using assms by (simp add: np_log_int_def)

lemma tau95_small:
  assumes "1 < n" and "n \<le> 100"
  shows "tau95 n = Inr (Fin ((3.0123 + (0.4835 - 2 * 0.00957 - 3 * 0.001488) * ln (real_of_int n))
                          / real_of_int n))"
proof -
  have n0: "0 \<le> n" using assms by simp
  have l1: "np_log_int n = Inr (Fin (ln (real_of_int n)))"
    using assms by (intro np_log_int_pos) simp_all
  have "1 < n ^ 2" using assms by (simp add: one_less_power)
  then have l2: "np_log_int (n ^ 2) = Inr (Fin (ln (real_of_int (n ^ 2))))"
    using cube_small(1) [OF n0 assms(2)] by (intro np_log_int_pos) simp_all
  have "1 < n ^ 3" using assms by (simp add: one_less_power)
  then have l3: "np_log_int (n ^ 3) = Inr (Fin (ln (real_of_int (n ^ 3))))"
    using cube_small(2) [OF n0 assms(2)] by (intro np_log_int_pos) simp_all
  show ?thesis
    using assms by (simp add: tau95_def l1 l2 l3 ln_of_int_power algebra_simps)
qed

lemma tau95_large:
  assumes "100 < n" and "n < 2 ^ 32"
  shows "tau95 n = Inr (Fin ((3.0806 + (0.4894 - 2 * 0.02086) * ln (real_of_int n))
                          / real_of_int n))"
proof -
  have l1: "np_log_int n = Inr (Fin (ln (real_of_int n)))"
    using assms by (intro np_log_int_pos) simp_all
  have "1 < n ^ 2" using assms by (simp add: one_less_power)
  moreover have "n ^ 2 < 2 ^ 64" using assms by (intro square_below_2_64) simp_all
  ultimately have l2: "np_log_int (n ^ 2) = Inr (Fin (ln (real_of_int (n ^ 2))))"
    by (rule np_log_int_pos)
  show ?thesis
    using assms by (simp add: tau95_def l1 l2 ln_of_int_power algebra_simps)
qed

lemma np_log_int_Inl:
  assumes "np_log_int v = Inl e"
  shows "e = TypeError"
  using assms by (simp add: np_log_int_def split: if_splits)

lemma tau95_huge:
  assumes "2 ^ 32 \<le> n"
  shows "tau95 n = Inl TypeError"
proof -
  have "np_log_int (n ^ 2) = Inl TypeError"
    using square_from_2_64 [OF assms] by (simp add: np_log_int_def)
  moreover have "100 < n" using assms by simp
  ultimately show ?thesis
    by (auto simp add: tau95_def split: sum.split dest: np_log_int_Inl)
qed

text \<open>
  Claim C9, as amended. Where \<open>tau95\<close> returns, each branch is affine in \<open>log n\<close>: the source
  takes the logarithm of \<open>n**2\<close> and of \<open>n**3\<close>, which are \<open>2 log n\<close> and \<open>3 log n\<close>, not
  powers of \<open>log n\<close>. For \<open>1 < n \<le> 100\<close> the value is
  \<open>(3.0123 + (0.4835 - 2*0.00957 - 3*0.001488) log n)/n\<close>, and for \<open>100 < n < 2\<^sup>3\<^sup>2\<close> it is
  \<open>(3.0806 + (0.4894 - 2*0.02086) log n)/n\<close>. For a Python integer \<open>n \<ge> 2\<^sup>3\<^sup>2\<close> the square
  does not fit a NumPy integer and \<open>tau95\<close> raises \<open>TypeError\<close>.
\<close>

theorem tau95_affine:
  "(1 < n \<and> n \<le> 100 \<longrightarrow>
      tau95 n = Inr (Fin ((3.0123 + (0.4835 - 2 * 0.00957 - 3 * 0.001488) * ln (real_of_int n))
                          / real_of_int n)))
   \<and> (100 < n \<and> n < 2 ^ 32 \<longrightarrow>
      tau95 n = Inr (Fin ((3.0806 + (0.4894 - 2 * 0.02086) * ln (real_of_int n))
                          / real_of_int n)))
   \<and> (2 ^ 32 \<le> n \<longrightarrow> tau95 n = Inl TypeError)"
  using tau95_small [of n] tau95_large [of n] tau95_huge [of n] by blast

theorem tau95_affine_witness:
  "tau95 50 = Inr (Fin ((3.0123 + (0.4835 - 2 * 0.00957 - 3 * 0.001488) * ln 50) / 50))
   \<and> tau95 101 = Inr (Fin ((3.0806 + (0.4894 - 2 * 0.02086) * ln 101) / 101))
   \<and> tau95 4294967296 = Inl TypeError"
  using tau95_affine [of 50] tau95_affine [of 101] tau95_affine [of 4294967296] by simp

text \<open>
  The claim as stated fails at \<open>n = 2\<^sup>3\<^sup>2\<close>, which is above 100: \<open>n**2 = 2\<^sup>6\<^sup>4\<close>, and
  \<open>tau95\<close> raises \<open>TypeError\<close> instead of returning the value of the second formula.
\<close>

theorem tau95_large_n_counterexample:
  "(100 :: int) < 4294967296
   \<and> tau95 4294967296 = Inl TypeError
   \<and> tau95 4294967296
       \<noteq> Inr (Fin ((3.0806 + (0.4894 - 2 * 0.02086) * ln 4294967296) / 4294967296))"
  using tau95_huge [of 4294967296] by simp

subsection \<open>The likelihood profile\<close>

lemma compute_likelihood_nth:
  assumes "ts \<noteq> []"
  shows "\<exists>L. compute_likelihood ts = Inr L \<and> length L = length ts
             \<and> (\<forall>k<length ts. L ! k = L_spec ts k)"
  using assms
  by (simp add: compute_likelihood_def L_spec_def Let_def last_conv_nth)

lemma L_spec_interior:
  assumes k: "0 < k" "k < length ts"
      and pos: "0 < ts ! k"
      and lt: "ts ! k < ts ! (length ts - 1)"
  shows "L_spec (map Fin ts) k =
           Fin (2 * real k * ln (real k / (ts ! k / ts ! (length ts - 1)))
                + 2 * real (length ts - k)
                    * ln (real (length ts - k) / (1 - ts ! k / ts ! (length ts - 1)))
                - 2 * real (length ts) * ln (real (length ts)))"
proof -
  let ?N = "length ts"
  let ?T = "ts ! (?N - 1)"
  let ?V = "ts ! k / ?T"
  have T: "0 < ?T" using pos lt by linarith
  have V0: "0 < ?V" using pos T by simp
  have V1: "?V < 1" using lt T by simp
  have a: "0 < real k / ?V" by (rule divide_pos_pos) (use k V0 in simp_all)
  have b: "0 < real (?N - k) / (1 - ?V)" by (rule divide_pos_pos) (use k V1 in simp_all)
  have V0': "?V \<noteq> 0" using V0 by linarith
  have V1': "1 - ?V \<noteq> 0" using V1 by linarith
  have T': "?T \<noteq> 0" using T by linarith
  have n: "0 < real ?N" using k by (cases ts) simp_all
  have "L_spec (map Fin ts) k =
          Fin (2 * real k) * np_log (Fin (real k / ?V))
            + Fin (2 * real (?N - k)) * np_log (Fin (real (?N - k) / (1 - ?V)))
            - Fin (2 * real ?N) * np_log (Fin (real ?N))"
    using k T' V0' V1' by (simp add: L_spec_def Let_def)
  also have "\<dots> = Fin (2 * real k * ln (real k / ?V)
                + 2 * real (?N - k) * ln (real (?N - k) / (1 - ?V))
                - 2 * real ?N * ln (real ?N))"
    by (simp only: np_log_pos [OF a] np_log_pos [OF b] np_log_pos [OF n]
          times_npfloat.simps plus_npfloat.simps minus_npfloat.simps mult.assoc)
  finally show ?thesis .
qed




lemma compute_likelihood_1_2: "compute_likelihood [Fin 1, Fin 2] = Inr [NaN, PInf]"
  by (simp add: compute_likelihood_def Let_def upt_rec)

text \<open>
  Claim C4. For a series of \<open>N \<ge> 2\<close> real timestamps whose last one \<open>T\<close> is positive,
  \<open>compute_likelihood\<close> returns an array \<open>L\<close> of length \<open>N\<close> whose entry at every index
  \<open>k\<close> in \<open>[0, N)\<close> is \<open>2k log(k/Vk[k]) + 2(N-k) log((N-k)/(1-Vk[k])) - 2N log(N)\<close>, where
  \<open>Vk[k] = times[k]/T\<close>; the operations are those of NumPy, which the formula needs at the
  two ends of the range. Where \<open>k > 0\<close> and \<open>0 < times[k] < T\<close> the entry is that real number.
\<close>

theorem compute_likelihood_formula:
  assumes "2 \<le> length ts" and "0 < last ts"
  shows "\<exists>L. compute_likelihood (map Fin ts) = Inr L \<and> length L = length ts
             \<and> (\<forall>k<length ts. L ! k = L_spec (map Fin ts) k)
             \<and> (\<forall>k<length ts. 0 < k \<and> 0 < ts ! k \<and> ts ! k < last ts \<longrightarrow>
                   L ! k = Fin (2 * real k * ln (real k / (ts ! k / last ts))
                                + 2 * real (length ts - k)
                                    * ln (real (length ts - k) / (1 - ts ! k / last ts))
                                - 2 * real (length ts) * ln (real (length ts))))"
proof -
  have ne: "ts \<noteq> []" using assms(1) by auto
  then have "map Fin ts \<noteq> []" by simp
  from compute_likelihood_nth [OF this] obtain L where
    L: "compute_likelihood (map Fin ts) = Inr L" "length L = length ts"
       "\<forall>k<length ts. L ! k = L_spec (map Fin ts) k"
    by auto
  have T: "last ts = ts ! (length ts - 1)" using ne by (rule last_conv_nth)
  have "L ! k = Fin (2 * real k * ln (real k / (ts ! k / last ts))
                     + 2 * real (length ts - k)
                         * ln (real (length ts - k) / (1 - ts ! k / last ts))
                     - 2 * real (length ts) * ln (real (length ts)))"
    if "k < length ts" "0 < k" "0 < ts ! k" "ts ! k < last ts" for k
    using L(3) that L_spec_interior [of k ts] unfolding T by simp
  with L show ?thesis by blast
qed

theorem compute_likelihood_formula_witness:
  "\<exists>L. compute_likelihood (map Fin [1, 2, 3]) = Inr L \<and> length L = 3
       \<and> L ! 0 = L_spec (map Fin [1, 2, 3]) 0
       \<and> L ! 1 = L_spec (map Fin [1, 2, 3]) 1
       \<and> L ! 2 = L_spec (map Fin [1, 2, 3]) 2
       \<and> L ! 1 = Fin (2 * ln (1 / (2 / 3)) + 4 * ln (2 / (1 - 2 / 3)) - 6 * ln 3)"
proof -
  have "2 \<le> length [1, 2, 3 :: real]" "0 < last [1, 2, 3 :: real]"
    by simp_all
  from compute_likelihood_formula [OF this] obtain L where
    L: "compute_likelihood (map Fin [1, 2, 3]) = Inr L" "length L = length [1, 2, 3 :: real]"
       "\<forall>k<length [1, 2, 3 :: real]. L ! k = L_spec (map Fin [1, 2, 3]) k"
       "\<forall>k<length [1, 2, 3 :: real].
           0 < k \<and> 0 < [1, 2, 3 :: real] ! k \<and> [1, 2, 3 :: real] ! k < last [1, 2, 3]
           \<longrightarrow> L ! k = Fin (2 * real k * ln (real k / ([1, 2, 3] ! k / last [1, 2, 3]))
                   + 2 * real (length [1, 2, 3 :: real] - k)
                       * ln (real (length [1, 2, 3 :: real] - k)
                              / (1 - [1, 2, 3] ! k / last [1, 2, 3]))
                   - 2 * real (length [1, 2, 3 :: real]) * ln (real (length [1, 2, 3 :: real])))"
    by blast
  from L(3) have "L ! 0 = L_spec (map Fin [1, 2, 3]) 0" "L ! 1 = L_spec (map Fin [1, 2, 3]) 1"
    "L ! 2 = L_spec (map Fin [1, 2, 3]) 2"
    by simp_all
  moreover from L(4) [rule_format, of 1]
  have "L ! 1 = Fin (2 * ln (1 / (2 / 3)) + 4 * ln (2 / (1 - 2 / 3)) - 6 * ln 3)"
    by simp
  ultimately show ?thesis using L(1,2) by simp
qed




subsection \<open>The chunked scan\<close>

text \<open>
  Claim C3. The claim says that \<open>find_change_points\<close> returns one result per chunk of 1000
  events. On the two events \<open>[1, 2]\<close>, one chunk, the function returns nothing: it raises
  \<open>NameError\<close> at \<open>argmax\<close>. On no events it returns \<open>None\<close>.
\<close>

theorem find_change_points_raises:
  "find_change_points [Fin 1, Fin 2] (5 / 100) = Inl (NameError ''argmax'')
   \<and> find_change_points [] (5 / 100) = Inr ()"
  by (simp add: find_change_points_def py_range_step_def chunk_body_def compute_likelihood_1_2)

section \<open>Properties of fcs\_mem.py\<close>

subsection \<open>The store\<close>

lemma alloc_fst [simp]: "fst (alloc a s) = nxt s"
  by (simp add: alloc_def)

lemma alloc_snd_nxt [simp]: "nxt (snd (alloc a s)) = Suc (nxt s)"
  by (simp add: alloc_def)

lemma alloc_snd_cells [simp]: "cells (snd (alloc a s)) = (cells s)(nxt s := a)"
  by (simp add: alloc_def)

lemma store_vec_nxt [simp]: "nxt (store_vec s a n v) = nxt s"
  by (simp add: store_vec_def)

lemma store_vec_other [simp]: "b \<noteq> a \<Longrightarrow> cells (store_vec s a n v) b = cells s b"
  by (simp add: store_vec_def)

lemma store_vec_same [simp]:
  "cells (store_vec s a n v) a = Vec ((vec_of (cells s a))[n := v])"
  by (simp add: store_vec_def)

lemma store_mat_nxt [simp]: "nxt (store_mat s a m n v) = nxt s"
  by (simp add: store_mat_def)

lemma store_mat_other [simp]: "b \<noteq> a \<Longrightarrow> cells (store_mat s a m n v) b = cells s b"
  by (simp add: store_mat_def)

lemma store_mat_same [simp]:
  "cells s a = Mat c rows \<Longrightarrow>
   cells (store_mat s a m n v) a = Mat c (rows[m := (rows ! m)[n := v]])"
  by (simp add: store_mat_def)

subsection \<open>The set-up loops\<close>

text \<open>The loops write nothing but the arrays \<open>H\<close> and \<open>g0\<close>.\<close>

lemma fill_column_frame:
  "fill_column models sigma H Npts n ms s = r \<Longrightarrow>
   (case r of Inl (e, s') \<Rightarrow> nxt s' = nxt s \<and> (\<forall>a. a \<noteq> H \<longrightarrow> cells s' a = cells s a)
            | Inr s' \<Rightarrow> nxt s' = nxt s \<and> (\<forall>a. a \<noteq> H \<longrightarrow> cells s' a = cells s a))"
proof (induction ms arbitrary: s r)
  case Nil
  then show ?case by auto
next
  case (Cons m ms)
  show ?case
  proof (cases "Npts = 0")
    case True
    with Cons.prems show ?thesis by auto
  next
    case False
    let ?s1 = "store_mat s H m n (H_val (cells s models) (cells s sigma) Npts m n)"
    from False Cons.prems have "fill_column models sigma H Npts n ms ?s1 = r" by simp
    from Cons.IH [OF this] show ?thesis
      by (auto split: sum.splits prod.splits)
  qed
qed

lemma fill_frame:
  "fill y models sigma H g0 Nmodels Npts ns s = r \<Longrightarrow>
   (case r of Inl (e, s') \<Rightarrow> nxt s' = nxt s \<and> (\<forall>a. a \<noteq> H \<and> a \<noteq> g0 \<longrightarrow> cells s' a = cells s a)
            | Inr s' \<Rightarrow> nxt s' = nxt s \<and> (\<forall>a. a \<noteq> H \<and> a \<noteq> g0 \<longrightarrow> cells s' a = cells s a))"
proof (induction ns arbitrary: s r)
  case Nil
  then show ?case by auto
next
  case (Cons n ns)
  show ?case
  proof (cases "Npts = 0")
    case True
    with Cons.prems show ?thesis by auto
  next
    case False
    let ?s1 = "store_vec s g0 n (g0_val (cells s y) (cells s models) (cells s sigma) Npts n)"
    show ?thesis
    proof (cases "fill_column models sigma H Npts n [0..<Nmodels] ?s1")
      case (Inl es)
      with False Cons.prems have r: "r = Inl es" by simp
      from fill_column_frame [OF Inl] show ?thesis
        unfolding r by (auto split: prod.splits)
    next
      case (Inr s2)
      with False Cons.prems have "fill y models sigma H g0 Nmodels Npts ns s2 = r" by simp
      from Cons.IH [OF this] fill_column_frame [OF Inr] show ?thesis
        by (auto split: sum.splits prod.splits)
    qed
  qed
qed


text \<open>
  What the loops compute: after the inner loop column \<open>n\<close> of \<open>H\<close> holds the values of the
  right-hand side, and after the outer loop so do all processed columns and entries of
  \<open>g0\<close>, whatever the arrays held before.
\<close>

lemma fill_column_result:
  assumes "0 < Npts" and "H \<noteq> models" and "H \<noteq> sigma"
    and "cells s H = Mat c rows" and "length rows = Nm"
    and "\<forall>m<Nm. length (rows ! m) = Nm"
    and "n < Nm" and "set ms \<subseteq> {..<Nm}"
  shows "\<exists>s' rows'. fill_column models sigma H Npts n ms s = Inr s'
           \<and> cells s' H = Mat c rows' \<and> length rows' = Nm
           \<and> (\<forall>m<Nm. length (rows' ! m) = Nm)
           \<and> (\<forall>m<Nm. \<forall>k<Nm. rows' ! m ! k =
                 (if m \<in> set ms \<and> k = n
                  then H_val (cells s models) (cells s sigma) Npts m n
                  else rows ! m ! k))"
  using assms(4-6,8)
proof (induction ms arbitrary: s rows)
  case Nil
  then show ?case by simp
next
  case (Cons m ms)
  let ?v = "H_val (cells s models) (cells s sigma) Npts m n"
  let ?s1 = "store_mat s H m n ?v"
  let ?rows1 = "rows[m := (rows ! m)[n := ?v]]"
  have m: "m < Nm" and ms: "set ms \<subseteq> {..<Nm}" using Cons.prems(4) by auto
  have c1: "cells ?s1 H = Mat c ?rows1" using Cons.prems(1) by simp
  have l1: "length ?rows1 = Nm" using Cons.prems(2) by simp
  have w1: "\<forall>m'<Nm. length (?rows1 ! m') = Nm"
    using Cons.prems(2,3) m by (auto simp add: nth_list_update)
  have e1: "\<forall>m'<Nm. \<forall>k<Nm. ?rows1 ! m' ! k = (if m' = m \<and> k = n then ?v else rows ! m' ! k)"
    using Cons.prems(2,3) assms(7) m by (auto simp add: nth_list_update)
  have o1: "cells ?s1 models = cells s models" "cells ?s1 sigma = cells s sigma"
    using assms(2,3) by simp_all
  from Cons.IH [OF c1 l1 w1 ms] obtain s' rows' where
    r: "fill_column models sigma H Npts n ms ?s1 = Inr s'"
       "cells s' H = Mat c rows'" "length rows' = Nm"
       "\<forall>m<Nm. length (rows' ! m) = Nm"
       "\<forall>m'<Nm. \<forall>k<Nm. rows' ! m' ! k =
           (if m' \<in> set ms \<and> k = n
            then H_val (cells ?s1 models) (cells ?s1 sigma) Npts m' n
            else ?rows1 ! m' ! k)"
    by blast
  have "fill_column models sigma H Npts n (m # ms) s = Inr s'"
    using r(1) assms(1) by simp
  moreover have "\<forall>m'<Nm. \<forall>k<Nm. rows' ! m' ! k =
           (if m' \<in> set (m # ms) \<and> k = n
            then H_val (cells s models) (cells s sigma) Npts m' n
            else rows ! m' ! k)"
    using r(5) e1 unfolding o1 by auto
  ultimately show ?case using r(2,3,4) by blast
qed

lemma fill_result:
  assumes "0 < Npts"
    and "H \<noteq> y" "H \<noteq> models" "H \<noteq> sigma" "H \<noteq> g0"
    and "g0 \<noteq> y" "g0 \<noteq> models" "g0 \<noteq> sigma"
    and "cells s H = Mat c rows" and "length rows = Nm"
    and "\<forall>m<Nm. length (rows ! m) = Nm"
    and "cells s g0 = Vec g" and "length g = Nm"
    and "set ns \<subseteq> {..<Nm}"
  shows "\<exists>s' rows' g'. fill y models sigma H g0 Nm Npts ns s = Inr s'
           \<and> cells s' H = Mat c rows' \<and> length rows' = Nm
           \<and> (\<forall>m<Nm. length (rows' ! m) = Nm)
           \<and> cells s' g0 = Vec g' \<and> length g' = Nm
           \<and> (\<forall>m<Nm. \<forall>k<Nm. rows' ! m ! k =
                 (if k \<in> set ns
                  then H_val (cells s models) (cells s sigma) Npts m k
                  else rows ! m ! k))
           \<and> (\<forall>k<Nm. g' ! k =
                 (if k \<in> set ns
                  then g0_val (cells s y) (cells s models) (cells s sigma) Npts k
                  else g ! k))"
  using assms(9-14)
proof (induction ns arbitrary: s rows g)
  case Nil
  then show ?case by simp
next
  case (Cons n ns)
  let ?gv = "g0_val (cells s y) (cells s models) (cells s sigma) Npts n"
  let ?s1 = "store_vec s g0 n ?gv"
  have n: "n < Nm" and ns: "set ns \<subseteq> {..<Nm}" using Cons.prems(6) by auto
  have c1: "cells ?s1 H = Mat c rows" using Cons.prems(1) assms(5) by simp
  have g1: "cells ?s1 g0 = Vec (g[n := ?gv])" using Cons.prems(4) by simp
  have o1: "cells ?s1 y = cells s y" "cells ?s1 models = cells s models"
    "cells ?s1 sigma = cells s sigma"
    using assms(6,7,8) by simp_all
  have all: "set [0..<Nm] \<subseteq> {..<Nm}" by auto
  from fill_column_result [OF assms(1,3,4) c1 Cons.prems(2,3) n all]
  obtain s2 rows2 where
    r2: "fill_column models sigma H Npts n [0..<Nm] ?s1 = Inr s2"
        "cells s2 H = Mat c rows2" "length rows2 = Nm"
        "\<forall>m<Nm. length (rows2 ! m) = Nm"
        "\<forall>m<Nm. \<forall>k<Nm. rows2 ! m ! k =
           (if m \<in> set [0..<Nm] \<and> k = n
            then H_val (cells ?s1 models) (cells ?s1 sigma) Npts m n
            else rows ! m ! k)"
    by blast
  from fill_column_frame [OF r2(1)] have
    f2: "\<forall>a. a \<noteq> H \<longrightarrow> cells s2 a = cells ?s1 a" by simp
  have o2: "cells s2 y = cells s y" "cells s2 models = cells s models"
    "cells s2 sigma = cells s sigma"
    using f2 o1 assms(2,3,4) by auto
  have g2: "cells s2 g0 = Vec (g[n := ?gv])" using f2 g1 assms(5) by auto
  have lg2: "length (g[n := ?gv]) = Nm" using Cons.prems(5) by simp
  from Cons.IH [OF r2(2,3,4) g2 lg2 ns] obtain s' rows' g' where
    r: "fill y models sigma H g0 Nm Npts ns s2 = Inr s'"
       "cells s' H = Mat c rows'" "length rows' = Nm"
       "\<forall>m<Nm. length (rows' ! m) = Nm"
       "cells s' g0 = Vec g'" "length g' = Nm"
       "\<forall>m<Nm. \<forall>k<Nm. rows' ! m ! k =
           (if k \<in> set ns
            then H_val (cells s2 models) (cells s2 sigma) Npts m k
            else rows2 ! m ! k)"
       "\<forall>k<Nm. g' ! k =
           (if k \<in> set ns
            then g0_val (cells s2 y) (cells s2 models) (cells s2 sigma) Npts k
            else g[n := ?gv] ! k)"
    by blast
  have "fill y models sigma H g0 Nm Npts (n # ns) s = Inr s'"
    using r(1) r2(1) assms(1) by simp
  moreover have "\<forall>m<Nm. \<forall>k<Nm. rows' ! m ! k =
                 (if k \<in> set (n # ns)
                  then H_val (cells s models) (cells s sigma) Npts m k
                  else rows ! m ! k)"
    using r(7) r2(5) unfolding o1 o2 by auto
  moreover have "\<forall>k<Nm. g' ! k =
                 (if k \<in> set (n # ns)
                  then g0_val (cells s y) (cells s models) (cells s sigma) Npts k
                  else g ! k)"
    using r(8) Cons.prems(5) unfolding o2 by (auto simp add: nth_list_update)
  ultimately show ?case using r(2-6) by blast
qed


subsection \<open>The statements before the loop\<close>

lemma mem_setup_unfold:
  assumes "cells s models = Mat Np Mrows" and "length Mrows = Nm"
    and "shape (cells s y) = [Np]" and "shape (cells s sigma) = [Np]"
    and "case expected of None \<Rightarrow> True | Some e \<Rightarrow> shape (cells s e) = [Nm]"
    and "case p0 of None \<Rightarrow> True | Some a \<Rightarrow> shape (cells s a) = [Nm]"
  shows "mem_setup garbage s y models sigma p0 expected =
     (let s1 = (case p0 of None \<Rightarrow> snd (alloc (Vec (replicate Nm (Fin 1))) s) | Some a \<Rightarrow> s);
          p0' = (case p0 of None \<Rightarrow> nxt s | Some a \<Rightarrow> a);
          s2 = snd (alloc (cells s1 p0') s1);
          s3 = snd (alloc (np_empty2 garbage Nm Nm) s2);
          s4 = snd (alloc (np_empty1 garbage Nm) s3)
      in case fill y models sigma (nxt s2) (nxt s3) Nm Np [0..<Nm] s4 of
           Inl es \<Rightarrow> Inl es
         | Inr s5 \<Rightarrow> Inr \<lparr>heap = s5, p_ref = nxt s1, H_ref = nxt s2, g0_ref = nxt s3,
                        expected_ref = expected, Nmodels_of = Nm\<rparr>)"
proof (cases p0)
  case None
  with assms show ?thesis
    by (cases expected) (simp_all add: mem_setup_def alloc_def Let_def split: sum.split)
next
  case (Some a)
  with assms show ?thesis
    by (cases expected) (simp_all add: mem_setup_def alloc_def Let_def split: sum.split)
qed


lemma fill_frame_Inr:
  "fill y models sigma H g0 Nmodels Npts ns s = Inr s' \<Longrightarrow>
   nxt s' = nxt s \<and> (\<forall>a. a \<noteq> H \<and> a \<noteq> g0 \<longrightarrow> cells s' a = cells s a)"
  using fill_frame [of y models sigma H g0 Nmodels Npts ns s "Inr s'"] by simp

lemma fill_frame_Inl:
  "fill y models sigma H g0 Nmodels Npts ns s = Inl (e, s') \<Longrightarrow>
   nxt s' = nxt s \<and> (\<forall>a. a \<noteq> H \<and> a \<noteq> g0 \<longrightarrow> cells s' a = cells s a)"
  using fill_frame [of y models sigma H g0 Nmodels Npts ns s "Inl (e, s')"] by simp

lemma mem_setup_frame_Inl:
  assumes "mem_setup garbage s y models sigma p0 expected = Inl (e, s')"
  shows "\<forall>a<nxt s. cells s' a = cells s a"
  using assms
  by (auto simp add: mem_setup_def alloc_def Let_def
      split: list.splits option.splits sum.splits if_splits dest!: fill_frame_Inl)

lemma mem_setup_frame_Inr:
  assumes "mem_setup garbage s y models sigma p0 expected = Inr f"
  shows "(\<forall>a<nxt s. cells (heap f) a = cells s a) \<and> nxt s \<le> p_ref f
         \<and> p_ref f < H_ref f \<and> H_ref f < g0_ref f \<and> g0_ref f < nxt (heap f)"
  using assms
  by (auto simp add: mem_setup_def alloc_def Let_def
      split: list.splits option.splits sum.splits if_splits dest!: fill_frame_Inr)


lemma mem_setup_result:
  assumes M: "cells s models = Mat Np Mrows" "length Mrows = Nm"
    and yshape: "shape (cells s y) = [Np]" and sshape: "shape (cells s sigma) = [Np]"
    and eshape: "case expected of None \<Rightarrow> True | Some e \<Rightarrow> shape (cells s e) = [Nm]"
    and pshape: "case p0 of None \<Rightarrow> True | Some a \<Rightarrow> shape (cells s a) = [Nm]"
    and nz: "Nm = 0 \<or> 0 < Np"
    and live: "y < nxt s" "models < nxt s" "sigma < nxt s"
  shows "\<exists>f. mem_setup garbage s y models sigma p0 expected = Inr f
           \<and> expected_ref f = expected \<and> Nmodels_of f = Nm
           \<and> cells (heap f) (p_ref f) =
               (case p0 of None \<Rightarrow> Vec (replicate Nm (Fin 1)) | Some a \<Rightarrow> cells s a)
           \<and> cells (heap f) (H_ref f) =
               Mat Nm (map (\<lambda>m. map (\<lambda>n. H_val (cells s models) (cells s sigma) Np m n)
                               [0..<Nm]) [0..<Nm])
           \<and> cells (heap f) (g0_ref f) =
               Vec (map (\<lambda>n. g0_val (cells s y) (cells s models) (cells s sigma) Np n)
                      [0..<Nm])"
proof -
  define s1 where
    "s1 = (case p0 of None \<Rightarrow> snd (alloc (Vec (replicate Nm (Fin 1))) s) | Some a \<Rightarrow> s)"
  define p0' where "p0' = (case p0 of None \<Rightarrow> nxt s | Some a \<Rightarrow> a)"
  define s2 where "s2 = snd (alloc (cells s1 p0') s1)"
  define s3 where "s3 = snd (alloc (np_empty2 garbage Nm Nm) s2)"
  define s4 where "s4 = snd (alloc (np_empty1 garbage Nm) s3)"
  define rows0 where
    "rows0 = map (\<lambda>i. map (\<lambda>j. garbage (i * Nm + j)) [0..<Nm]) [0..<Nm]"
  let ?P = "nxt s1" and ?H = "nxt s2" and ?G = "nxt s3"
  have unf: "mem_setup garbage s y models sigma p0 expected =
      (case fill y models sigma ?H ?G Nm Np [0..<Nm] s4 of
         Inl es \<Rightarrow> Inl es
       | Inr s5 \<Rightarrow> Inr \<lparr>heap = s5, p_ref = ?P, H_ref = ?H, g0_ref = ?G,
                      expected_ref = expected, Nmodels_of = Nm\<rparr>)"
    unfolding s4_def s3_def s2_def p0'_def s1_def
    using mem_setup_unfold [OF M yshape sshape eshape pshape, of garbage]
    unfolding Let_def .
  have le: "nxt s \<le> ?P" by (simp add: s1_def split: option.split)
  have low1: "\<forall>a<nxt s. cells s1 a = cells s a"
    by (simp add: s1_def split: option.split)
  have pv: "cells s1 p0' = (case p0 of None \<Rightarrow> Vec (replicate Nm (Fin 1)) | Some a \<Rightarrow> cells s a)"
    by (simp add: s1_def p0'_def split: option.split)
  have H: "?H = Suc ?P" and G: "?G = Suc (Suc ?P)" by (simp_all add: s2_def s3_def)
  have c4: "cells s4 = (cells s1)(?P := cells s1 p0', ?H := np_empty2 garbage Nm Nm,
                                  ?G := np_empty1 garbage Nm)"
    by (simp add: s4_def s3_def s2_def)
  have in4: "cells s4 y = cells s y" "cells s4 models = cells s models"
    "cells s4 sigma = cells s sigma"
    using live le low1 by (simp_all add: c4 H G)
  have p4: "cells s4 ?P = cells s1 p0'" by (simp add: c4 H G)
  have H4: "cells s4 ?H = Mat Nm rows0" by (simp add: c4 H G np_empty2_def rows0_def)
  have G4: "cells s4 ?G = Vec (map garbage [0..<Nm])" by (simp add: c4 np_empty1_def)
  have l0: "length rows0 = Nm" and w0: "\<forall>m<Nm. length (rows0 ! m) = Nm"
    by (simp_all add: rows0_def)
  have "\<exists>s5. fill y models sigma ?H ?G Nm Np [0..<Nm] s4 = Inr s5
          \<and> cells s5 ?P = cells s1 p0'
          \<and> cells s5 ?H =
               Mat Nm (map (\<lambda>m. map (\<lambda>n. H_val (cells s models) (cells s sigma) Np m n)
                               [0..<Nm]) [0..<Nm])
          \<and> cells s5 ?G =
               Vec (map (\<lambda>n. g0_val (cells s y) (cells s models) (cells s sigma) Np n)
                      [0..<Nm])"
  proof (cases "Nm = 0")
    case True
    then show ?thesis using p4 H4 G4 by (simp add: rows0_def)
  next
    case False
    with nz have Np: "0 < Np" by simp
    have d: "?H \<noteq> y" "?H \<noteq> models" "?H \<noteq> sigma" "?H \<noteq> ?G"
      "?G \<noteq> y" "?G \<noteq> models" "?G \<noteq> sigma"
      using live le by (simp_all add: H G)
    have sub: "set [0..<Nm] \<subseteq> {..<Nm}" by auto
    have lg: "length (map garbage [0..<Nm]) = Nm" by simp
    from fill_result [OF Np d H4 l0 w0 G4 lg sub]
    obtain s5 rows' g' where
      r: "fill y models sigma ?H ?G Nm Np [0..<Nm] s4 = Inr s5"
         "cells s5 ?H = Mat Nm rows'" "length rows' = Nm"
         "\<forall>m<Nm. length (rows' ! m) = Nm"
         "cells s5 ?G = Vec g'" "length g' = Nm"
         "\<forall>m<Nm. \<forall>k<Nm. rows' ! m ! k =
             (if k \<in> set [0..<Nm]
              then H_val (cells s4 models) (cells s4 sigma) Np m k
              else rows0 ! m ! k)"
         "\<forall>k<Nm. g' ! k =
             (if k \<in> set [0..<Nm]
              then g0_val (cells s4 y) (cells s4 models) (cells s4 sigma) Np k
              else map garbage [0..<Nm] ! k)"
      by blast
    have rows': "rows' = map (\<lambda>m. map (\<lambda>n. H_val (cells s models) (cells s sigma) Np m n)
                               [0..<Nm]) [0..<Nm]"
    proof (rule nth_equalityI)
      show "length rows' = length (map (\<lambda>m. map (\<lambda>n. H_val (cells s models) (cells s sigma)
                                  Np m n) [0..<Nm]) [0..<Nm])"
        using r(3) by simp
    next
      fix m assume "m < length rows'"
      then have m: "m < Nm" using r(3) by simp
      show "rows' ! m = map (\<lambda>m. map (\<lambda>n. H_val (cells s models) (cells s sigma) Np m n)
                               [0..<Nm]) [0..<Nm] ! m"
        using m r(4) r(7) by (intro nth_equalityI) (simp_all add: in4)
    qed
    have g': "g' = map (\<lambda>n. g0_val (cells s y) (cells s models) (cells s sigma) Np n) [0..<Nm]"
      using r(6) r(8) by (intro nth_equalityI) (simp_all add: in4)
    have "cells s5 ?P = cells s4 ?P"
      using fill_frame_Inr [OF r(1)] by (simp add: H G)
    with r(1,2,5) rows' g' p4 show ?thesis by simp
  qed
  then obtain s5 where
    s5: "fill y models sigma ?H ?G Nm Np [0..<Nm] s4 = Inr s5"
        "cells s5 ?P = cells s1 p0'"
        "cells s5 ?H =
               Mat Nm (map (\<lambda>m. map (\<lambda>n. H_val (cells s models) (cells s sigma) Np m n)
                               [0..<Nm]) [0..<Nm])"
        "cells s5 ?G =
               Vec (map (\<lambda>n. g0_val (cells s y) (cells s models) (cells s sigma) Np n)
                      [0..<Nm])"
    by blast
  show ?thesis
    unfolding unf using s5 pv by simp
qed


subsection \<open>The loop body and the loop\<close>

lemma sweep_inner_frame:
  "nxt (foldl (\<lambda>s x. store_vec s p i (Fin x)) s xs) = nxt s
   \<and> (a \<noteq> p \<longrightarrow> cells (foldl (\<lambda>s x. store_vec s p i (Fin x)) s xs) a = cells s a)"
  by (induction xs arbitrary: s) simp_all

lemma sweep_outer_frame:
  "nxt (foldl (\<lambda>s i. foldl (\<lambda>s x. store_vec s p i (Fin x)) s xs) s js) = nxt s
   \<and> (a \<noteq> p \<longrightarrow>
        cells (foldl (\<lambda>s i. foldl (\<lambda>s x. store_vec s p i (Fin x)) s xs) s js) a = cells s a)"
  by (induction js arbitrary: s) (simp_all add: sweep_inner_frame)

lemma plot_sweep_nxt [simp]: "nxt (plot_sweep s p N) = nxt s"
  by (simp add: plot_sweep_def sweep_outer_frame)

lemma plot_sweep_other [simp]: "a \<noteq> p \<Longrightarrow> cells (plot_sweep s p N) a = cells s a"
  by (simp add: plot_sweep_def sweep_outer_frame)

lemma mem_body_Inr:
  assumes "mem_body shrager nu f = Inr f'"
  shows "p_ref f' = nxt (heap f) \<and> nxt (heap f') = Suc (nxt (heap f))
         \<and> H_ref f' = H_ref f \<and> g0_ref f' = g0_ref f
         \<and> expected_ref f' = expected_ref f \<and> Nmodels_of f' = Nmodels_of f
         \<and> (\<forall>a. a \<noteq> p_ref f \<and> a \<noteq> nxt (heap f) \<longrightarrow> cells (heap f') a = cells (heap f) a)"
  using assms
  by (auto simp add: mem_body_def Let_def alloc_def split: sum.splits)

lemma mem_body_Inl:
  assumes "mem_body shrager nu f = Inl (e, s')"
  shows "nxt s' = nxt (heap f) \<and> (\<forall>a. a \<noteq> p_ref f \<longrightarrow> cells s' a = cells (heap f) a)"
  using assms
  by (auto simp add: mem_body_def Let_def alloc_def split: sum.splits)

lemma mem_body_Inl_solver:
  assumes "mem_body shrager nu f = Inl es"
  shows "\<exists>Q g C d x0 e. shrager Q g C d x0 = Inl e"
  using assms
  by (auto simp add: mem_body_def Let_def alloc_def split: sum.splits) blast

lemma mem_steps_preserves:
  assumes "p_ref f \<notin> A" and "\<forall>a\<in>A. a < nxt (heap f)"
  shows "case mem_steps shrager nu n f of
           Inl (e, s') \<Rightarrow> (\<forall>a\<in>A. cells s' a = cells (heap f) a)
         | Inr f' \<Rightarrow> (\<forall>a\<in>A. cells (heap f') a = cells (heap f) a)
                      \<and> p_ref f' \<notin> A \<and> (\<forall>a\<in>A. a < nxt (heap f'))
                      \<and> H_ref f' = H_ref f \<and> g0_ref f' = g0_ref f"
  using assms
proof (induction n arbitrary: f)
  case 0
  then show ?case by simp
next
  case (Suc n)
  show ?case
  proof (cases "mem_body shrager nu f")
    case (Inl es)
    obtain e s' where es: "es = (e, s')" by (cases es)
    have "\<forall>a\<in>A. cells s' a = cells (heap f) a"
    proof
      fix a assume a: "a \<in> A"
      then have "a \<noteq> p_ref f" using Suc.prems by auto
      then show "cells s' a = cells (heap f) a"
        using mem_body_Inl [OF Inl [unfolded es]] by simp
    qed
    then show ?thesis using Inl es by simp
  next
    case (Inr f1)
    note b = mem_body_Inr [OF Inr]
    have p1: "p_ref f1 \<notin> A" using b Suc.prems(2) by auto
    have l1: "\<forall>a\<in>A. a < nxt (heap f1)" using b Suc.prems(2) by auto
    have c1: "\<forall>a\<in>A. cells (heap f1) a = cells (heap f) a"
    proof
      fix a assume a: "a \<in> A"
      then have "a \<noteq> p_ref f" "a \<noteq> nxt (heap f)" using Suc.prems by auto
      then show "cells (heap f1) a = cells (heap f) a" using b by simp
    qed
    from Suc.IH [OF p1 l1] c1 b show ?thesis
      using Inr by (auto split: sum.splits)
  qed
qed

text \<open>
  The loop has no normal exit: whenever it stops, it stops with an exception, and that
  exception comes from the solver.
\<close>

lemma mem_loop_Some_Inl:
  assumes "mem_loop shrager nu f = Some y"
  shows "\<exists>es. y = Inl es"
  using assms
  by (rule mem_loop.raw_induct [rotated, where P = "\<lambda>shrager nu f y. \<exists>es. y = Inl es"])
     (auto split: sum.splits)

lemma mem_loop_no_value: "mem_loop shrager nu f \<noteq> Some (Inr r)"
  using mem_loop_Some_Inl [of shrager nu f "Inr r"] by auto

lemma mem_loop_Some_solver:
  assumes "mem_loop shrager nu f = Some y"
  shows "\<exists>Q g C d x0 e. shrager Q g C d x0 = Inl e"
  using assms
  by (rule mem_loop.raw_induct
        [rotated, where P = "\<lambda>shrager nu f y. \<exists>Q g C d x0 e. shrager Q g C d x0 = Inl e"])
     (auto split: sum.splits dest: mem_body_Inl_solver)

lemma mem_loop_diverges:
  assumes "\<forall>Q g C d x0. \<exists>pNew. shrager Q g C d x0 = Inr pNew"
  shows "mem_loop shrager nu f = None"
proof (rule ccontr)
  assume "mem_loop shrager nu f \<noteq> None"
  then obtain y where "mem_loop shrager nu f = Some y" by auto
  from mem_loop_Some_solver [OF this] obtain Q g C d x0 e where
    "shrager Q g C d x0 = Inl e" by blast
  moreover from assms obtain pNew where "shrager Q g C d x0 = Inr pNew" by blast
  ultimately show False by simp
qed


lemma mem_loop_preserves:
  assumes "mem_loop shrager nu f = Some y"
    and "p_ref f \<notin> A" and "\<forall>a\<in>A. a < nxt (heap f)"
  shows "case y of Inl (e, s') \<Rightarrow> (\<forall>a\<in>A. cells s' a = cells (heap f) a)
                 | Inr (b, s') \<Rightarrow> (\<forall>a\<in>A. cells s' a = cells (heap f) a)"
proof -
  have "\<forall>A. p_ref f \<notin> A \<and> (\<forall>a\<in>A. a < nxt (heap f)) \<longrightarrow>
          (case y of Inl (e, s') \<Rightarrow> (\<forall>a\<in>A. cells s' a = cells (heap f) a)
                   | Inr (b, s') \<Rightarrow> (\<forall>a\<in>A. cells s' a = cells (heap f) a))"
    using assms(1)
  proof (rule mem_loop.raw_induct [rotated, where P = "\<lambda>shrager nu f y.
          \<forall>A. p_ref f \<notin> A \<and> (\<forall>a\<in>A. a < nxt (heap f)) \<longrightarrow>
          (case y of Inl (e, s') \<Rightarrow> (\<forall>a\<in>A. cells s' a = cells (heap f) a)
                   | Inr (b, s') \<Rightarrow> (\<forall>a\<in>A. cells s' a = cells (heap f) a))"])
    fix loop :: "solver \<Rightarrow> real \<Rightarrow> frame \<Rightarrow> ((error \<times> store) + (addr \<times> store)) option"
    fix shrager nu f y
    assume IH: "\<And>shrager nu f y. loop shrager nu f = Some y \<Longrightarrow>
          \<forall>A. p_ref f \<notin> A \<and> (\<forall>a\<in>A. a < nxt (heap f)) \<longrightarrow>
          (case y of Inl (e, s') \<Rightarrow> (\<forall>a\<in>A. cells s' a = cells (heap f) a)
                   | Inr (b, s') \<Rightarrow> (\<forall>a\<in>A. cells s' a = cells (heap f) a))"
    assume step: "(case mem_body shrager nu f of
                     Inl es \<Rightarrow> Some (Inl es)
                   | Inr f' \<Rightarrow>
                       let converged = False
                       in if converged then Some (Inr (p_ref f', heap f'))
                          else loop shrager nu f') = Some y"
    show "\<forall>A. p_ref f \<notin> A \<and> (\<forall>a\<in>A. a < nxt (heap f)) \<longrightarrow>
          (case y of Inl (e, s') \<Rightarrow> (\<forall>a\<in>A. cells s' a = cells (heap f) a)
                   | Inr (b, s') \<Rightarrow> (\<forall>a\<in>A. cells s' a = cells (heap f) a))"
    proof (intro allI impI, elim conjE)
      fix A assume A: "p_ref f \<notin> A" "\<forall>a\<in>A. a < nxt (heap f)"
      show "case y of Inl (e, s') \<Rightarrow> (\<forall>a\<in>A. cells s' a = cells (heap f) a)
                   | Inr (b, s') \<Rightarrow> (\<forall>a\<in>A. cells s' a = cells (heap f) a)"
      proof (cases "mem_body shrager nu f")
        case (Inl es)
        obtain e s' where es: "es = (e, s')" by (cases es)
        have y: "y = Inl (e, s')" using step Inl es by simp
        have "\<forall>a\<in>A. cells s' a = cells (heap f) a"
        proof
          fix a assume "a \<in> A"
          then have "a \<noteq> p_ref f" using A by auto
          then show "cells s' a = cells (heap f) a"
            using mem_body_Inl [OF Inl [unfolded es]] by simp
        qed
        then show ?thesis using y by simp
      next
        case (Inr f1)
        note b = mem_body_Inr [OF Inr]
        have l: "loop shrager nu f1 = Some y" using step Inr by simp
        have p1: "p_ref f1 \<notin> A" using b A(2) by auto
        have l1: "\<forall>a\<in>A. a < nxt (heap f1)" using b A(2) by auto
        have c1: "\<forall>a\<in>A. cells (heap f1) a = cells (heap f) a"
        proof
          fix a assume a: "a \<in> A"
          then have "a \<noteq> p_ref f" "a \<noteq> nxt (heap f)" using A by auto
          then show "cells (heap f1) a = cells (heap f) a" using b by simp
        qed
        from IH [OF l] p1 l1 have
          "case y of Inl (e, s') \<Rightarrow> (\<forall>a\<in>A. cells s' a = cells (heap f1) a)
                   | Inr (b, s') \<Rightarrow> (\<forall>a\<in>A. cells s' a = cells (heap f1) a)"
          by blast
        with c1 show ?thesis by (auto split: sum.splits)
      qed
    qed
  qed
  with assms(2,3) show ?thesis by blast
qed

subsection \<open>The fit matrices\<close>

lemma map2_nth:
  "length xs = n \<Longrightarrow> length ys = n \<Longrightarrow> map2 f xs ys = map (\<lambda>i. f (xs ! i) (ys ! i)) [0..<n]"
  by (auto intro!: nth_equalityI)

lemma H_val_spec:
  assumes "m < length Mrows" "n < length Mrows"
    "length (Mrows ! m) = Np" "length (Mrows ! n) = Np" "length sg = Np"
  shows "H_val (Mat Np Mrows) (Vec sg) Np m n = H_spec Mrows sg Np m n"
proof -
  have "map2 (/) (map2 times (Mrows ! m) (Mrows ! n)) (map (\<lambda>x. x * x) sg)
        = map (\<lambda>i. Mrows ! m ! i * Mrows ! n ! i / (sg ! i * sg ! i)) [0..<Np]"
    using assms by (intro nth_equalityI) simp_all
  then show ?thesis by (simp add: H_val_def H_spec_def)
qed

lemma g0_val_spec:
  assumes "n < length Mrows" "length (Mrows ! n) = Np" "length yv = Np" "length sg = Np"
  shows "g0_val (Vec yv) (Mat Np Mrows) (Vec sg) Np n = g0_spec Mrows yv sg Np n"
proof -
  have "map2 (/) (map2 times (Mrows ! n) yv) (map (\<lambda>x. x * x) sg)
        = map (\<lambda>i. Mrows ! n ! i * yv ! i / (sg ! i * sg ! i)) [0..<Np]"
    using assms by (intro nth_equalityI) simp_all
  then show ?thesis by (simp add: g0_val_def g0_spec_def)
qed

lemma shape_Mat:
  assumes "shape a = [Nm, Np]"
  shows "\<exists>rows. a = Mat Np rows \<and> length rows = Nm"
  using assms by (cases a) simp_all

text \<open>
  Claim C5. Let the arguments be existing arrays of matching shapes, \<open>models\<close> with
  \<open>Nmodels\<close> rows of \<open>Npts > 0\<close> points. Then the statements before the loop succeed and leave
  \<open>H[m,n] = (2/Npts) \<Sum>i models[m,i] models[n,i] / sigma[i]\<^sup>2\<close> and
  \<open>g0[n] = (2/Npts) \<Sum>i models[n,i] y[i] / sigma[i]\<^sup>2\<close> in two new arrays; and after any
  number of passes through the loop body, also when a pass ends in an exception, \<open>H\<close> and
  \<open>g0\<close> are the same two arrays with the same contents.
\<close>

theorem mem_fit_matrices_once:
  assumes M: "cells s models = Mat Np Mrows" "length Mrows = Nm"
      "\<forall>r\<in>set Mrows. length r = Np"
    and yv: "cells s y = Vec yv" "length yv = Np"
    and sg: "cells s sigma = Vec sg" "length sg = Np"
    and eshape: "case expected of None \<Rightarrow> True | Some e \<Rightarrow> shape (cells s e) = [Nm]"
    and pshape: "case p0 of None \<Rightarrow> True | Some a \<Rightarrow> shape (cells s a) = [Nm]"
    and nz: "Nm = 0 \<or> 0 < Np"
    and live: "y < nxt s" "models < nxt s" "sigma < nxt s"
  shows "\<exists>f. mem_setup garbage s y models sigma p0 expected = Inr f
           \<and> cells (heap f) (H_ref f) =
               Mat Nm (map (\<lambda>m. map (\<lambda>n. H_spec Mrows sg Np m n) [0..<Nm]) [0..<Nm])
           \<and> cells (heap f) (g0_ref f) = Vec (map (\<lambda>n. g0_spec Mrows yv sg Np n) [0..<Nm])
           \<and> (\<forall>k. case mem_steps shrager nu k f of
                    Inl (e, s') \<Rightarrow>
                      cells s' (H_ref f) = cells (heap f) (H_ref f)
                      \<and> cells s' (g0_ref f) = cells (heap f) (g0_ref f)
                  | Inr f' \<Rightarrow>
                      H_ref f' = H_ref f \<and> g0_ref f' = g0_ref f
                      \<and> cells (heap f') (H_ref f) = cells (heap f) (H_ref f)
                      \<and> cells (heap f') (g0_ref f) = cells (heap f) (g0_ref f))"
proof -
  have ys: "shape (cells s y) = [Np]" and ss: "shape (cells s sigma) = [Np]"
    using yv sg by simp_all
  from mem_setup_result [OF M(1,2) ys ss eshape pshape nz live, of garbage]
  obtain f where
    f: "mem_setup garbage s y models sigma p0 expected = Inr f"
       "cells (heap f) (H_ref f) =
          Mat Nm (map (\<lambda>m. map (\<lambda>n. H_val (cells s models) (cells s sigma) Np m n)
                          [0..<Nm]) [0..<Nm])"
       "cells (heap f) (g0_ref f) =
          Vec (map (\<lambda>n. g0_val (cells s y) (cells s models) (cells s sigma) Np n) [0..<Nm])"
    by blast
  have len: "length (Mrows ! m) = Np" if "m < Nm" for m
    using M(2,3) that by simp
  have Hs: "map (\<lambda>m. map (\<lambda>n. H_val (cells s models) (cells s sigma) Np m n) [0..<Nm]) [0..<Nm]
            = map (\<lambda>m. map (\<lambda>n. H_spec Mrows sg Np m n) [0..<Nm]) [0..<Nm]"
    using M(2) sg(2) len by (intro map_cong refl) (simp add: M(1) sg(1) H_val_spec)
  have gs: "map (\<lambda>n. g0_val (cells s y) (cells s models) (cells s sigma) Np n) [0..<Nm]
            = map (\<lambda>n. g0_spec Mrows yv sg Np n) [0..<Nm]"
    using M(2) sg(2) yv(2) len by (intro map_cong refl) (simp add: M(1) sg(1) yv(1) g0_val_spec)
  note fr = mem_setup_frame_Inr [OF f(1)]
  have pA: "p_ref f \<notin> {H_ref f, g0_ref f}" using fr by auto
  have lA: "\<forall>a\<in>{H_ref f, g0_ref f}. a < nxt (heap f)" using fr by auto
  have "case mem_steps shrager nu k f of
          Inl (e, s') \<Rightarrow>
            cells s' (H_ref f) = cells (heap f) (H_ref f)
            \<and> cells s' (g0_ref f) = cells (heap f) (g0_ref f)
        | Inr f' \<Rightarrow>
            H_ref f' = H_ref f \<and> g0_ref f' = g0_ref f
            \<and> cells (heap f') (H_ref f) = cells (heap f) (H_ref f)
            \<and> cells (heap f') (g0_ref f) = cells (heap f) (g0_ref f)" for k
    using mem_steps_preserves [OF pA lA, of shrager nu k]
    by (auto split: sum.splits)
  with f(1) f(2) [unfolded Hs] f(3) [unfolded gs] show ?thesis by blast
qed

subsection \<open>The arguments are left alone\<close>

text \<open>
  Claim C10. Every array that exists when \<open>mem\<close> is called, the arguments among them,
  holds the same contents when the statements before the loop raise, after they
  succeed, after any number of passes through the loop body, when a pass raises, and
  whenever \<open>mem\<close> itself ends. The array that \<open>p\<close> refers to, the only one the iteration
  assigns into, is always one created during the call: first the copy of \<open>p0\<close>, then the
  solver's results.
\<close>

theorem mem_inputs_unchanged:
  "(case mem_setup garbage s y models sigma p0 expected of
      Inl (e, s') \<Rightarrow> (\<forall>a<nxt s. cells s' a = cells s a)
    | Inr f \<Rightarrow>
        nxt s \<le> p_ref f \<and> (\<forall>a<nxt s. cells (heap f) a = cells s a)
        \<and> (\<forall>k. case mem_steps shrager nu k f of
                 Inl (e, s') \<Rightarrow> (\<forall>a<nxt s. cells s' a = cells s a)
               | Inr f' \<Rightarrow> nxt s \<le> p_ref f' \<and> (\<forall>a<nxt s. cells (heap f') a = cells s a)))
   \<and> (\<forall>r. mem shrager garbage s y models sigma p0 expected nu delta_thresh = Some r \<longrightarrow>
         (case r of Inl (e, s') \<Rightarrow> (\<forall>a<nxt s. cells s' a = cells s a)
                  | Inr (b, s') \<Rightarrow> (\<forall>a<nxt s. cells s' a = cells s a)))"
proof (cases "mem_setup garbage s y models sigma p0 expected")
  case (Inl es)
  obtain e s' where es: "es = (e, s')" by (cases es)
  from mem_setup_frame_Inl [OF Inl [unfolded es]] show ?thesis
    using Inl es by (auto simp add: mem_def)
next
  case (Inr f)
  note fr = mem_setup_frame_Inr [OF Inr]
  have pA: "p_ref f \<notin> {..<nxt s}" using fr by auto
  have lA: "\<forall>a\<in>{..<nxt s}. a < nxt (heap f)" using fr by auto
  have low: "\<forall>a<nxt s. cells (heap f) a = cells s a" using fr by simp
  have steps: "case mem_steps shrager nu k f of
                 Inl (e, s') \<Rightarrow> (\<forall>a<nxt s. cells s' a = cells s a)
               | Inr f' \<Rightarrow> nxt s \<le> p_ref f' \<and> (\<forall>a<nxt s. cells (heap f') a = cells s a)"
    for k
    using mem_steps_preserves [OF pA lA, of shrager nu k] low
    by (auto split: sum.splits simp add: not_less)
  have loop: "case r of Inl (e, s') \<Rightarrow> (\<forall>a<nxt s. cells s' a = cells s a)
                      | Inr (b, s') \<Rightarrow> (\<forall>a<nxt s. cells s' a = cells s a)"
    if "mem_loop shrager nu f = Some r" for r
    using mem_loop_preserves [OF that pA lA] low
    by (auto split: sum.splits)
  show ?thesis
    using Inr fr steps loop by (simp add: mem_def)
qed

subsection \<open>Preconditions\<close>

text \<open>
  Claim C7, as amended. With a two-dimensional \<open>models\<close> of shape \<open>(Nmodels, Npts)\<close>, \<open>mem\<close>
  ends at once with \<open>AssertionError\<close>, the store untouched, when the shape of \<open>y\<close> or of
  \<open>sigma\<close> is not \<open>(Npts,)\<close> or the shape of a given \<open>expected\<close> or \<open>p0\<close> is not
  \<open>(Nmodels,)\<close>. When the shapes match (and \<open>Npts > 0\<close> or \<open>Nmodels = 0\<close>) the statements
  before the loop succeed, whatever values \<open>sigma\<close> holds.
\<close>

theorem mem_rejects_shape_mismatch:
  assumes "shape (cells s models) = [Nm, Np]"
  shows "(shape (cells s y) \<noteq> [Np] \<or> shape (cells s sigma) \<noteq> [Np]
          \<or> (\<exists>e. expected = Some e \<and> shape (cells s e) \<noteq> [Nm])
          \<or> (\<exists>a. p0 = Some a \<and> shape (cells s a) \<noteq> [Nm])
          \<longrightarrow> mem shrager garbage s y models sigma p0 expected nu delta_thresh
                = Some (Inl (AssertionError, s)))
       \<and> (shape (cells s y) = [Np] \<and> shape (cells s sigma) = [Np]
          \<and> (\<forall>e. expected = Some e \<longrightarrow> shape (cells s e) = [Nm])
          \<and> (\<forall>a. p0 = Some a \<longrightarrow> shape (cells s a) = [Nm])
          \<and> (Nm = 0 \<or> 0 < Np) \<and> y < nxt s \<and> models < nxt s \<and> sigma < nxt s
          \<longrightarrow> (\<exists>f. mem_setup garbage s y models sigma p0 expected = Inr f))"
proof (intro conjI impI)
  assume "shape (cells s y) \<noteq> [Np] \<or> shape (cells s sigma) \<noteq> [Np]
          \<or> (\<exists>e. expected = Some e \<and> shape (cells s e) \<noteq> [Nm])
          \<or> (\<exists>a. p0 = Some a \<and> shape (cells s a) \<noteq> [Nm])"
  with assms show "mem shrager garbage s y models sigma p0 expected nu delta_thresh
                = Some (Inl (AssertionError, s))"
    by (auto simp add: mem_def mem_setup_def split: option.splits)
next
  assume a: "shape (cells s y) = [Np] \<and> shape (cells s sigma) = [Np]
          \<and> (\<forall>e. expected = Some e \<longrightarrow> shape (cells s e) = [Nm])
          \<and> (\<forall>a. p0 = Some a \<longrightarrow> shape (cells s a) = [Nm])
          \<and> (Nm = 0 \<or> 0 < Np) \<and> y < nxt s \<and> models < nxt s \<and> sigma < nxt s"
  from shape_Mat [OF assms] obtain Mrows where
    M: "cells s models = Mat Np Mrows" "length Mrows = Nm" by blast
  have e: "case expected of None \<Rightarrow> True | Some e \<Rightarrow> shape (cells s e) = [Nm]"
    using a by (simp split: option.split)
  have p: "case p0 of None \<Rightarrow> True | Some a \<Rightarrow> shape (cells s a) = [Nm]"
    using a by (simp split: option.split)
  from mem_setup_result [OF M _ _ e p, of y sigma garbage] a
  show "\<exists>f. mem_setup garbage s y models sigma p0 expected = Inr f"
    by blast
qed

subsection \<open>The scenario\<close>

lemma scenario_facts:
  "cells scenario 0 = Vec (map Fin [1, 1, 1])"
  "cells scenario 1 = Mat 3 (map (map Fin) [[1, 1, 1], [0, 0, 1]])"
  "cells scenario 2 = Vec (map Fin [1, 1, 1])"
  "cells scenario 3 = Vec (map Fin [1, 1])"
  "cells scenario 4 = Vec (map Fin [1, 1])"
  "nxt scenario = 5"
  "cells scenario (Suc 0) = Mat 3 (map (map Fin) [[1, 1, 1], [0, 0, 1]])"
  by (simp_all add: scenario_def)

lemma scenario_setup:
  "\<exists>f. mem_setup garbage scenario 0 1 2 (Some 4) (Some 3) = Inr f"
proof -
  from mem_setup_result [OF scenario_facts(2), of 2 0 2 "Some 3" "Some 4" garbage]
  obtain f where "mem_setup garbage scenario 0 1 2 (Some 4) (Some 3) = Inr f"
    by (auto simp add: scenario_facts)
  then show ?thesis by blast
qed

text \<open>
  Claim C2. The claim says that \<open>mem\<close> terminates on the scenario, by convergence or after a
  bounded number of iterations. In the scenario \<open>mem\<close> returns no weights with any solver,
  and with a solver that always answers (here the one that returns its starting point) it
  does not end at all.
\<close>

theorem mem_scenario_never_returns:
  "(\<forall>shrager r. mem shrager (\<lambda>_. NaN) scenario 0 1 2 (Some 4) (Some 3) (5 / 1000000) (1 / 10000)
        \<noteq> Some (Inr r))
   \<and> mem (\<lambda>Q g C d x0. Inr x0) (\<lambda>_. NaN) scenario 0 1 2 (Some 4) (Some 3)
        (5 / 1000000) (1 / 10000) = None"
proof -
  from scenario_setup [of "\<lambda>_. NaN"] obtain f where
    f: "mem_setup (\<lambda>_. NaN) scenario 0 1 2 (Some 4) (Some 3) = Inr f" by blast
  have "mem_loop (\<lambda>Q g C d x0. Inr x0) (5 / 1000000) f = None"
    by (rule mem_loop_diverges) simp
  then show ?thesis using f by (simp add: mem_def mem_loop_no_value)
qed


theorem mem_scenario_fit_matrices_witness:
  "\<exists>f. mem_setup (\<lambda>_. NaN) scenario 0 1 2 (Some 4) (Some 3) = Inr f
       \<and> cells (heap f) (H_ref f) = Mat 2 [[Fin 2, Fin (2 / 3)], [Fin (2 / 3), Fin (2 / 3)]]
       \<and> cells (heap f) (g0_ref f) = Vec [Fin 2, Fin (2 / 3)]
       \<and> (\<forall>k. case mem_steps (\<lambda>Q g C d x0. Inr x0) (5 / 1000000) k f of
                Inl (e, s') \<Rightarrow>
                  cells s' (H_ref f) = cells (heap f) (H_ref f)
                  \<and> cells s' (g0_ref f) = cells (heap f) (g0_ref f)
              | Inr f' \<Rightarrow>
                  H_ref f' = H_ref f \<and> g0_ref f' = g0_ref f
                  \<and> cells (heap f') (H_ref f) = cells (heap f) (H_ref f)
                  \<and> cells (heap f') (g0_ref f) = cells (heap f) (g0_ref f))"
proof -
  have H: "map (\<lambda>m. map (\<lambda>n. H_spec (map (map Fin) [[1, 1, 1], [0, 0, 1]]) (map Fin [1, 1, 1])
                               3 m n) [0..<2]) [0..<2]
           = [[Fin 2, Fin (2 / 3)], [Fin (2 / 3), Fin (2 / 3)]]"
    by (simp add: H_spec_def upt_rec)
  have g: "map (\<lambda>n. g0_spec (map (map Fin) [[1, 1, 1], [0, 0, 1]]) (map Fin [1, 1, 1])
                      (map Fin [1, 1, 1]) 3 n) [0..<2]
           = [Fin 2, Fin (2 / 3)]"
    by (simp add: g0_spec_def upt_rec)
  from mem_fit_matrices_once
    [OF scenario_facts(2) _ _ scenario_facts(1) _ scenario_facts(3),
      of 2 "Some 3" "Some 4" "(\<lambda>_. NaN)" "(\<lambda>Q g C d x0. Inr x0)" "5 / 1000000"]
  show ?thesis
    unfolding H g by (simp add: scenario_facts)
qed

theorem mem_scenario_inputs_unchanged_witness:
  "\<exists>f. mem_setup (\<lambda>_. NaN) scenario 0 1 2 (Some 4) (Some 3) = Inr f
       \<and> 5 \<le> p_ref f \<and> cells (heap f) 4 = Vec [Fin 1, Fin 1]
       \<and> (\<forall>k. case mem_steps (\<lambda>Q g C d x0. Inr x0) (5 / 1000000) k f of
                Inl (e, s') \<Rightarrow> cells s' 4 = Vec [Fin 1, Fin 1]
              | Inr f' \<Rightarrow> 5 \<le> p_ref f' \<and> cells (heap f') 4 = Vec [Fin 1, Fin 1])"
proof -
  from scenario_setup [of "\<lambda>_. NaN"] obtain f where
    f: "mem_setup (\<lambda>_. NaN) scenario 0 1 2 (Some 4) (Some 3) = Inr f" by blast
  from mem_inputs_unchanged
    [where garbage = "\<lambda>_. NaN" and s = scenario and y = 0 and models = 1 and sigma = 2
       and ?p0.0 = "Some 4" and expected = "Some 3" and shrager = "\<lambda>Q g C d x0. Inr x0"
       and nu = "5 / 1000000" and delta_thresh = 0]
  have u: "nxt scenario \<le> p_ref f" "\<forall>a<nxt scenario. cells (heap f) a = cells scenario a"
    "\<forall>k. case mem_steps (\<lambda>Q g C d x0. Inr x0) (5 / 1000000) k f of
            Inl (e, s') \<Rightarrow> (\<forall>a<nxt scenario. cells s' a = cells scenario a)
          | Inr f' \<Rightarrow> nxt scenario \<le> p_ref f'
                \<and> (\<forall>a<nxt scenario. cells (heap f') a = cells scenario a)"
    unfolding f by simp_all
  have "case mem_steps (\<lambda>Q g C d x0. Inr x0) (5 / 1000000) k f of
                Inl (e, s') \<Rightarrow> cells s' 4 = Vec [Fin 1, Fin 1]
              | Inr f' \<Rightarrow> 5 \<le> p_ref f' \<and> cells (heap f') 4 = Vec [Fin 1, Fin 1]" for k
    using u(3) [rule_format, of k] by (auto split: sum.splits simp add: scenario_facts)
  moreover have "5 \<le> p_ref f" "cells (heap f) 4 = Vec [Fin 1, Fin 1]"
    using u(1,2) by (simp_all add: scenario_facts)
  ultimately show ?thesis using f by blast
qed

theorem mem_rejects_shape_mismatch_witness:
  "mem (\<lambda>Q g C d x0. Inr x0) (\<lambda>_. NaN) scenario 3 1 2 None None (5 / 1000000) (1 / 10000)
     = Some (Inl (AssertionError, scenario))
   \<and> (\<exists>f. mem_setup (\<lambda>_. NaN) scenario 0 1 2 None None = Inr f)"
  using mem_rejects_shape_mismatch
    [where s = scenario and models = 1 and Nm = 2 and Np = 3 and y = 3 and sigma = 2
       and ?p0.0 = None and expected = None and shrager = "\<lambda>Q g C d x0. Inr x0"
       and garbage = "\<lambda>_. NaN" and nu = "5 / 1000000" and delta_thresh = "1 / 10000"]
    mem_rejects_shape_mismatch
    [where s = scenario and models = 1 and Nm = 2 and Np = 3 and y = 0 and sigma = 2
       and ?p0.0 = None and expected = None and shrager = "\<lambda>Q g C d x0. Inr x0"
       and garbage = "\<lambda>_. NaN" and nu = "5 / 1000000" and delta_thresh = "1 / 10000"]
  by (simp add: scenario_facts)

text \<open>
  The claim C7 as stated fails on the scenario with \<open>sigma = [0, -1, 1]\<close>: the statements
  before the loop raise nothing and \<open>mem\<close> goes on into its loop.
\<close>

theorem mem_accepts_nonpositive_sigma_counterexample:
  "\<not> isl (mem_setup (\<lambda>_. NaN)
            (scenario\<lparr>cells := (cells scenario)(2 := Vec [Fin 0, Fin (- 1), Fin 1])\<rparr>)
            0 1 2 (Some 4) (Some 3))
   \<and> mem (\<lambda>Q g C d x0. Inr x0) (\<lambda>_. NaN)
        (scenario\<lparr>cells := (cells scenario)(2 := Vec [Fin 0, Fin (- 1), Fin 1])\<rparr>)
        0 1 2 (Some 4) (Some 3) (5 / 1000000) (1 / 10000) = None"
proof -
  let ?s = "scenario\<lparr>cells := (cells scenario)(2 := Vec [Fin 0, Fin (- 1), Fin 1])\<rparr>"
  have M: "cells ?s 1 = Mat 3 (map (map Fin) [[1, 1, 1], [0, 0, 1]])"
    by (simp add: scenario_def)
  from mem_setup_result [OF M, of 2 0 2 "Some 3" "Some 4" "\<lambda>_. NaN"]
  obtain f where f: "mem_setup (\<lambda>_. NaN) ?s 0 1 2 (Some 4) (Some 3) = Inr f"
    by (auto simp add: scenario_def)
  have "mem_loop (\<lambda>Q g C d x0. Inr x0) (5 / 1000000) f = None"
    by (rule mem_loop_diverges) simp
  then show ?thesis using f by (simp add: mem_def)
qed

end
